theory Spec2Isabelle
  imports Main
begin

section \<open>Python values and the string operations the program uses\<close>

text \<open>
  The program is a Flask application (\<^verbatim>\<open>main.py\<close>). Text is modelled by HOL strings;
  a character stands for the code point of the same number, so the strings of the model
  are the Python strings over the code points 0 to 255. On these the library functions
  \<^verbatim>\<open>str.strip\<close>, \<^verbatim>\<open>str.lstrip\<close>, \<^verbatim>\<open>str.lower\<close>, \<^verbatim>\<open>str\<close> and \<^verbatim>\<open>int\<close> are
  written out below.
\<close>

definition code_point :: "char \<Rightarrow> nat" where
  "code_point c = of_char c"

definition is_space :: "char \<Rightarrow> bool" where
  \<comment> \<open>\<^verbatim>\<open>str.isspace\<close> on one character: TAB to CR, FS to US, space, NEL and NBSP.\<close>
  "is_space c =
     (let n = code_point c
      in (9 \<le> n \<and> n \<le> 13) \<or> (28 \<le> n \<and> n \<le> 32) \<or> n = 133 \<or> n = 160)"

definition strip :: "string \<Rightarrow> string" where
  \<comment> \<open>\<^verbatim>\<open>s.strip()\<close>\<close>
  "strip s = rev (dropWhile is_space (rev (dropWhile is_space s)))"

definition lstrip_hash :: "string \<Rightarrow> string" where
  \<comment> \<open>\<^verbatim>\<open>s.lstrip('#')\<close>\<close>
  "lstrip_hash s = dropWhile (\<lambda>c. c = CHR ''#'') s"

definition lower_char :: "char \<Rightarrow> char" where
  \<comment> \<open>the letters A to Z and the capital letters of the range 192 to 222 (215, the
      multiplication sign, apart) move up by 32\<close>
  "lower_char c =
     (let n = code_point c
      in if (65 \<le> n \<and> n \<le> 90) \<or> (192 \<le> n \<and> n \<le> 222 \<and> n \<noteq> 215)
         then char_of (n + 32) else c)"

definition lower :: "string \<Rightarrow> string" where
  \<comment> \<open>\<^verbatim>\<open>s.lower()\<close>\<close>
  "lower s = map lower_char s"

fun join :: "string \<Rightarrow> string list \<Rightarrow> string" where
  \<comment> \<open>\<^verbatim>\<open>sep.join(xs)\<close>\<close>
  "join sep [] = []"
| "join sep [x] = x"
| "join sep (x # y # ys) = x @ sep @ join sep (y # ys)"

definition digit_char :: "nat \<Rightarrow> char" where
  "digit_char d = char_of (48 + d)"

fun str_nat :: "nat \<Rightarrow> string" where
  \<comment> \<open>the decimal digits of a natural number\<close>
  "str_nat n = (if n < 10 then [digit_char n] else str_nat (n div 10) @ [digit_char (n mod 10)])"

declare str_nat.simps [simp del]

definition str_int :: "int \<Rightarrow> string" where
  "str_int i = (if i < 0 then CHR ''-'' # str_nat (nat (- i)) else str_nat (nat i))"

definition hex_char :: "nat \<Rightarrow> char" where
  "hex_char d = (if d < 10 then char_of (48 + d) else char_of (87 + d))"

definition is_printable :: "char \<Rightarrow> bool" where
  \<comment> \<open>\<^verbatim>\<open>str.isprintable\<close> on one character\<close>
  "is_printable c =
     (let n = code_point c in \<not> (n < 32 \<or> (127 \<le> n \<and> n \<le> 160) \<or> n = 173))"

definition repr_char :: "char \<Rightarrow> char \<Rightarrow> string" where
  \<comment> \<open>one character inside the quotes of \<^verbatim>\<open>repr(s)\<close>\<close>
  "repr_char quote c =
     (if c = quote \<or> c = CHR 0x5C then [CHR 0x5C, c]
      else if c = CHR 0x09 then [CHR 0x5C, CHR ''t'']
      else if c = CHR 0x0A then [CHR 0x5C, CHR ''n'']
      else if c = CHR 0x0D then [CHR 0x5C, CHR ''r'']
      else if is_printable c then [c]
      else [CHR 0x5C, CHR ''x'', hex_char (code_point c div 16), hex_char (code_point c mod 16)])"

definition repr_str :: "string \<Rightarrow> string" where
  \<comment> \<open>\<^verbatim>\<open>repr(s)\<close> of a string: double quotes only when the text has a single quote
      and no double quote\<close>
  "repr_str s =
     (let quote = (if CHR 0x27 \<in> set s \<and> CHR 0x22 \<notin> set s then CHR 0x22 else CHR 0x27)
      in quote # concat (map (repr_char quote) s) @ [quote])"

text \<open>
  The values \<^verbatim>\<open>json.loads\<close> produces. A float is represented by its \<^verbatim>\<open>repr\<close>, which
  determines it; a dictionary by its items in insertion order.
\<close>

datatype pyval =
    PNone
  | PBool bool
  | PInt int
  | PFloat string
  | PStr string
  | PList "pyval list"
  | PDict "(string \<times> pyval) list"

fun truthy :: "pyval \<Rightarrow> bool" where
  \<comment> \<open>the truth value Python gives a value in \<^verbatim>\<open>if v:\<close>\<close>
  "truthy PNone = False"
| "truthy (PBool b) = b"
| "truthy (PInt i) = (i \<noteq> 0)"
| "truthy (PFloat r) = (r \<noteq> ''0.0'' \<and> r \<noteq> ''-0.0'')"
| "truthy (PStr s) = (s \<noteq> [])"
| "truthy (PList xs) = (xs \<noteq> [])"
| "truthy (PDict kvs) = (kvs \<noteq> [])"

fun repr :: "pyval \<Rightarrow> string" where
  \<comment> \<open>\<^verbatim>\<open>repr(v)\<close>\<close>
  "repr PNone = ''None''"
| "repr (PBool b) = (if b then ''True'' else ''False'')"
| "repr (PInt i) = str_int i"
| "repr (PFloat r) = r"
| "repr (PStr s) = repr_str s"
| "repr (PList xs) = ''['' @ join '', '' (map repr xs) @ '']''"
| "repr (PDict kvs) =
     ''{'' @ join '', '' (map (\<lambda>(k, v). repr_str k @ '': '' @ repr v) kvs) @ ''}''"

definition py_str :: "pyval \<Rightarrow> string" where
  \<comment> \<open>\<^verbatim>\<open>str(v)\<close>: a string is itself, every other value its \<^verbatim>\<open>repr\<close>\<close>
  "py_str v = (case v of PStr s \<Rightarrow> s | _ \<Rightarrow> repr v)"

definition dict_get :: "(string \<times> 'v) list \<Rightarrow> string \<Rightarrow> 'v \<Rightarrow> 'v" where
  \<comment> \<open>\<^verbatim>\<open>d.get(k, default)\<close>\<close>
  "dict_get d k dflt = (case map_of d k of Some v \<Rightarrow> v | None \<Rightarrow> dflt)"

definition dict_has :: "(string \<times> 'v) list \<Rightarrow> string \<Rightarrow> bool" where
  \<comment> \<open>\<^verbatim>\<open>k in d\<close>\<close>
  "dict_has d k = (map_of d k \<noteq> None)"

definition py_take :: "int \<Rightarrow> 'a list \<Rightarrow> 'a list" where
  \<comment> \<open>the slice \<^verbatim>\<open>xs[:n]\<close>; a negative \<open>n\<close> counts from the end\<close>
  "py_take n xs = (if 0 \<le> n then take (nat n) xs else take (length xs - nat (- n)) xs)"

section \<open>The post record and the outside world\<close>

text \<open>
  A post is the dictionary built in \<^verbatim>\<open>generate_multiple_social_media_posts\<close>. The key
  \<^verbatim>\<open>caption_german\<close> is optional: \<open>None\<close> stands for its absence.
\<close>

record post =
  caption :: string
  hashtags :: "string list"
  image_url :: "string option"
  image_prompt :: pyval
  variant :: pyval
  post_id :: string
  caption_german :: "string option"

datatype error =
    ValueError string
  | JSONDecodeError
  | TypeError
  | AttributeError
  | ApiError

text \<open>
  What the hosted services answer is not decided by the program, so it is an input.
  The completion call either raises, or its first choice has no content, or content that
  \<^verbatim>\<open>json.loads\<close> rejects, or content that parses to a value. Each image call either
  raises or returns a list of data items, each with an optional URL. The \<open>n\<close>-th call of
  \<^verbatim>\<open>uuid.uuid4()\<close> yields \<open>uuid4 e n\<close>.
\<close>

datatype completion_response =
    CompletionRaises
  | ContentNone
  | ContentInvalid
  | ContentJson pyval

datatype image_response =
    ImageRaises
  | ImageData "string option list"

record env =
  completion :: completion_response
  images :: "nat \<Rightarrow> image_response"
  uuid4 :: "nat \<Rightarrow> string"
  template_renders :: bool
  now_isoformat :: string

record world =
  completion_calls :: nat
  image_calls :: nat
  uuid_calls :: nat

definition new_uuid :: "env \<Rightarrow> world \<Rightarrow> string \<times> world" where
  \<comment> \<open>\<^verbatim>\<open>str(uuid.uuid4())\<close>\<close>
  "new_uuid e w = (uuid4 e (uuid_calls w), w\<lparr>uuid_calls := uuid_calls w + 1\<rparr>)"

definition generate_food_image :: "env \<Rightarrow> world \<Rightarrow> (error + string option) \<times> world" where
  "generate_food_image e w =
     (let w' = w\<lparr>image_calls := image_calls w + 1\<rparr>
      in case images e (image_calls w) of
           ImageRaises \<Rightarrow> (Inl ApiError, w')
         | ImageData [] \<Rightarrow> (Inl (ValueError ''No image data returned from DALL-E''), w')
         | ImageData (url # _) \<Rightarrow> (Inr url, w'))"

section \<open>Cleaning the hashtags of one post\<close>

fun normalize_tags :: "pyval list \<Rightarrow> string list" where
  \<comment> \<open>the loop that fills \<^verbatim>\<open>normalized_tags\<close>\<close>
  "normalize_tags [] = []"
| "normalize_tags (tag # tags) =
     (if truthy tag
      then (let clean_tag = lstrip_hash (strip (py_str tag))
            in if clean_tag \<noteq> [] then clean_tag # normalize_tags tags
               else normalize_tags tags)
      else normalize_tags tags)"

definition berlin_tags :: "string list" where
  "berlin_tags = [''berlineats'', ''mitte'', ''kreuzberg'', ''berlinfoodie'', ''berlin'']"

definition has_berlin_tag :: "string list \<Rightarrow> bool" where
  "has_berlin_tag tags = list_ex (\<lambda>tag. lower tag \<in> set berlin_tags) tags"

definition ensure_berlin_tag :: "string list \<Rightarrow> string list" where
  \<comment> \<open>with no Berlin tag, the last tag is replaced when there are three or more,
      and one is appended otherwise\<close>
  "ensure_berlin_tag normalized_tags =
     (if \<not> has_berlin_tag normalized_tags
      then (if 3 \<le> length normalized_tags
            then normalized_tags[length normalized_tags - 1 := ''BerlinEats'']
            else normalized_tags @ [''BerlinEats''])
      else normalized_tags)"

function pad_hashtags :: "string list \<Rightarrow> string list" where
  \<comment> \<open>\<^verbatim>\<open>while len(hashtags) < 3\<close>\<close>
  "pad_hashtags hs =
     (if length hs < 3
      then (if ''foodie'' \<notin> set (map lower hs)
            then pad_hashtags (hs @ [''foodie''])
            else if ''delicious'' \<notin> set (map lower hs)
            then pad_hashtags (hs @ [''delicious''])
            else pad_hashtags (hs @ [''restaurant'']))
      else hs)"
  by pat_completeness auto
termination
  by (relation "measure (\<lambda>hs. 3 - length hs)") auto

declare pad_hashtags.simps [simp del]

definition clean_hashtags :: "(string \<times> pyval) list \<Rightarrow> string list" where
  "clean_hashtags post_data =
     (case dict_get post_data ''hashtags'' (PList []) of
        PList tags \<Rightarrow> pad_hashtags (take 3 (ensure_berlin_tag (normalize_tags tags)))
      | _ \<Rightarrow> [''BerlinEats'', ''foodie'', ''delicious''])"

section \<open>\<^verbatim>\<open>generate_multiple_social_media_posts\<close>\<close>

text \<open>
  The prompt that is built from the menu text, the language and the number of posts goes
  to the completion service and nowhere else; the answer of the service is taken from the
  environment, for every prompt.
\<close>

definition make_post :: "env \<Rightarrow> string \<Rightarrow> (string \<times> pyval) list \<Rightarrow> world \<Rightarrow> post \<times> world" where
  \<comment> \<open>the body of the loop over \<^verbatim>\<open>posts_data\<close>, for an item that is a dictionary
      with a caption; a failed image call leaves \<^verbatim>\<open>image_url\<close> at \<^verbatim>\<open>None\<close>\<close>
  "make_post e language post_data w =
     (let tags = clean_hashtags post_data;
          prompt = dict_get post_data ''image_prompt'' (PStr []);
          (url, w1) =
            (if truthy prompt
             then (case generate_food_image e w of
                     (Inr u, w') \<Rightarrow> (u, w')
                   | (Inl _, w') \<Rightarrow> (None, w'))
             else (None, w));
          (pid, w2) = new_uuid e w1
      in (\<lparr>caption = py_str (dict_get post_data ''caption'' (PStr [])),
           hashtags = tags,
           image_url = url,
           image_prompt = prompt,
           variant = dict_get post_data ''variant'' (PStr []),
           post_id = pid,
           caption_german =
             (if language = ''both'' \<and> truthy (dict_get post_data ''caption_german'' PNone)
              then Some (py_str (dict_get post_data ''caption_german'' (PStr [])))
              else None)\<rparr>,
          w2))"

fun clean_posts :: "env \<Rightarrow> string \<Rightarrow> pyval list \<Rightarrow> world \<Rightarrow> post list \<times> world" where
  \<comment> \<open>\<^verbatim>\<open>for i, post_data in enumerate(posts_data)\<close>: items that are no dictionary or
      have no caption are skipped\<close>
  "clean_posts e language [] w = ([], w)"
| "clean_posts e language (PDict post_data # rest) w =
     (if dict_has post_data ''caption''
      then (let (p, w1) = make_post e language post_data w;
                (ps, w2) = clean_posts e language rest w1
            in (p # ps, w2))
      else clean_posts e language rest w)"
| "clean_posts e language (_ # rest) w = clean_posts e language rest w"

definition fork_and_knife :: string where
  \<comment> \<open>U+1F374, beyond the one-character range: held as its four UTF-8 bytes\<close>
  "fork_and_knife = [CHR 0xF0, CHR 0x9F, CHR 0x8D, CHR 0xB4]"

definition sparkles :: string where
  \<comment> \<open>U+2728, held as its three UTF-8 bytes\<close>
  "sparkles = [CHR 0xE2, CHR 0x9C, CHR 0xA8]"

definition fallback_post :: "string \<Rightarrow> string option \<Rightarrow> string \<Rightarrow> post" where
  "fallback_post language default_image pid =
     \<lparr>caption = ''Check out our amazing menu! Come visit us today! '' @ fork_and_knife @ sparkles,
      hashtags = [''BerlinEats'', ''foodie'', ''Mitte''],
      image_url = default_image,
      image_prompt =
        PStr ''Professional food photography of restaurant dish, appetizing and well-plated'',
      variant = PStr ''casual'',
      post_id = pid,
      caption_german =
        (if language = ''both''
         then Some (''Schaut euch unser fantastisches Men'' @ [CHR 0xFC]
                    @ '' an! Besucht uns heute! '' @ fork_and_knife @ sparkles)
         else None)\<rparr>"

definition pad_step :: "env \<Rightarrow> string \<Rightarrow> world \<Rightarrow> post \<times> world" where
  \<comment> \<open>one round of the padding loop: an image call whose failure is ignored, then a
      fresh identifier\<close>
  "pad_step e language w =
     (let (r, w1) = generate_food_image e w;
          default_image = (case r of Inr u \<Rightarrow> u | Inl _ \<Rightarrow> None);
          (pid, w2) = new_uuid e w1
      in (fallback_post language default_image pid, w2))"

function pad_posts :: "env \<Rightarrow> string \<Rightarrow> int \<Rightarrow> post list \<Rightarrow> world \<Rightarrow> post list \<times> world" where
  \<comment> \<open>\<^verbatim>\<open>while len(posts) < actual_posts_needed\<close>\<close>
  "pad_posts e language needed posts w =
     (if int (length posts) < needed
      then pad_posts e language needed (posts @ [fst (pad_step e language w)])
             (snd (pad_step e language w))
      else (posts, w))"
  by pat_completeness auto
termination
  by (relation "measure (\<lambda>(e, language, needed, posts, w). nat (needed - int (length posts)))")
     auto

declare pad_posts.simps [simp del]

definition py_iter :: "pyval \<Rightarrow> error + pyval list" where
  \<comment> \<open>what a \<^verbatim>\<open>for\<close> loop runs over: the items of a list, the keys of a dictionary, the
      characters of a string; any other value of these is not iterable\<close>
  "py_iter v =
     (case v of
        PList xs \<Rightarrow> Inr xs
      | PDict kvs \<Rightarrow> Inr (map (\<lambda>(k, _). PStr k) kvs)
      | PStr s \<Rightarrow> Inr (map (\<lambda>c. PStr [c]) s)
      | _ \<Rightarrow> Inl TypeError)"

definition generate_body ::
  "env \<Rightarrow> string \<Rightarrow> int \<Rightarrow> string \<Rightarrow> bool \<Rightarrow> world \<Rightarrow> (error + post list) \<times> world" where
  \<comment> \<open>the \<^verbatim>\<open>try\<close> block\<close>
  "generate_body e menu_text num_posts language ab_test_mode w =
     (let actual_posts_needed = (if ab_test_mode then num_posts * 2 else num_posts);
          w0 = w\<lparr>completion_calls := completion_calls w + 1\<rparr>
      in case completion e of
           CompletionRaises \<Rightarrow> (Inl ApiError, w0)
         | ContentNone \<Rightarrow> (Inl (ValueError ''Empty response from OpenAI''), w0)
         | ContentInvalid \<Rightarrow> (Inl JSONDecodeError, w0)
         | ContentJson (PDict result) \<Rightarrow>
             (case py_iter (dict_get result ''posts'' (PList [])) of
                Inl err \<Rightarrow> (Inl err, w0)
              | Inr posts_data \<Rightarrow>
                  (let (posts, w1) = clean_posts e language posts_data w0;
                       (padded, w2) = pad_posts e language actual_posts_needed posts w1
                   in (Inr (py_take actual_posts_needed padded), w2)))
         | ContentJson _ \<Rightarrow> (Inl AttributeError, w0))"

definition generate_multiple_social_media_posts ::
  "env \<Rightarrow> string \<Rightarrow> int \<Rightarrow> string \<Rightarrow> bool \<Rightarrow> world \<Rightarrow> (error + post list) \<times> world" where
  \<comment> \<open>the two \<^verbatim>\<open>except\<close> clauses turn every exception of the body into a
      \<^verbatim>\<open>ValueError\<close>\<close>
  "generate_multiple_social_media_posts e menu_text num_posts language ab_test_mode w =
     (case generate_body e menu_text num_posts language ab_test_mode w of
        (Inr posts, w') \<Rightarrow> (Inr posts, w')
      | (Inl JSONDecodeError, w') \<Rightarrow>
          (Inl (ValueError ''Invalid response format from AI service''), w')
      | (Inl _, w') \<Rightarrow> (Inl (ValueError ''Failed to generate social media posts''), w'))"

section \<open>The session and the request handlers\<close>

text \<open>
  The session is Flask's per-user dictionary; \<open>None\<close> in a field stands for a key that
  is not set. \<open>flashes\<close> is the list of the messages flashed so far, each with its
  category.
\<close>

record session =
  flashes :: "(string \<times> string) list"
  uploaded_images :: "(string \<times> string) list option"
  current_posts :: "post list option"
  current_menu_text :: "string option"
  current_language :: "string option"

datatype export_value =
    EStr string
  | EPosts "post list"

datatype response =
    RenderResults "post list" string string bool
  | RedirectIndex
  | JsonResponse "(string \<times> pyval) list" nat
  | CsvFile "pyval list list"
  | JsonFile "(string \<times> export_value) list"

definition flash :: "string \<Rightarrow> string \<Rightarrow> session \<Rightarrow> session" where
  \<comment> \<open>\<^verbatim>\<open>flash(message, category)\<close>\<close>
  "flash message category s = s\<lparr>flashes := flashes s @ [(category, message)]\<rparr>"

fun dict_set :: "(string \<times> 'v) list \<Rightarrow> string \<Rightarrow> 'v \<Rightarrow> (string \<times> 'v) list" where
  \<comment> \<open>\<^verbatim>\<open>d[k] = v\<close>\<close>
  "dict_set [] k v = [(k, v)]"
| "dict_set ((k', v') # d) k v = (if k' = k then (k, v) # d else (k', v') # dict_set d k v)"

definition is_digit :: "char \<Rightarrow> bool" where
  "is_digit c = (48 \<le> code_point c \<and> code_point c \<le> 57)"

fun digits_ok :: "string \<Rightarrow> bool" where
  \<comment> \<open>decimal digits, with single underscores allowed between two digits\<close>
  "digits_ok [] = False"
| "digits_ok [c] = is_digit c"
| "digits_ok (c # d # r) =
     (is_digit c \<and> (if d = CHR ''_'' then digits_ok r else digits_ok (d # r)))"

definition int_space :: "char \<Rightarrow> bool" where
  \<comment> \<open>the white space \<^verbatim>\<open>int\<close> skips at both ends: TAB to CR, space, NEL and NBSP\<close>
  "int_space c =
     (let n = code_point c in (9 \<le> n \<and> n \<le> 13) \<or> n = 32 \<or> n = 133 \<or> n = 160)"

definition digits_value :: "string \<Rightarrow> nat" where
  "digits_value ds = foldl (\<lambda>a c. 10 * a + (code_point c - 48)) 0 (filter is_digit ds)"

definition py_int :: "string \<Rightarrow> int option" where
  \<comment> \<open>\<^verbatim>\<open>int(s)\<close> of a string; \<open>None\<close> is the \<^verbatim>\<open>ValueError\<close>. The interpreter's limit
      on the number of digits is not modelled.\<close>
  "py_int s =
     (let t = rev (dropWhile int_space (rev (dropWhile int_space s)))
      in case t of
           [] \<Rightarrow> None
         | c # r \<Rightarrow>
             if c = CHR ''-'' then (if digits_ok r then Some (- int (digits_value r)) else None)
             else if c = CHR ''+'' then (if digits_ok r then Some (int (digits_value r)) else None)
             else if digits_ok t then Some (int (digits_value t)) else None)"

definition merge_uploaded :: "(string \<times> string) list \<Rightarrow> post list \<Rightarrow> post list" where
  \<comment> \<open>the loop that puts the uploaded images into the new posts\<close>
  "merge_uploaded uploaded posts =
     map (\<lambda>(i, p). case map_of uploaded (str_nat i) of
                      Some name \<Rightarrow> p\<lparr>image_url := Some (''/uploaded_image/'' @ name)\<rparr>
                    | None \<Rightarrow> p)
         (enumerate 0 posts)"

definition requested_num_posts :: "(string \<times> string) list \<Rightarrow> int option" where
  \<comment> \<open>\<^verbatim>\<open>int(request.form.get('num_posts', 3))\<close>; \<open>None\<close> is the \<^verbatim>\<open>ValueError\<close>\<close>
  "requested_num_posts form =
     (case map_of form ''num_posts'' of None \<Rightarrow> Some 3 | Some v \<Rightarrow> py_int v)"

definition generate_posts ::
  "env \<Rightarrow> (string \<times> string) list \<Rightarrow> session \<Rightarrow> world \<Rightarrow> response \<times> session \<times> world" where
  \<comment> \<open>the handler of \<^verbatim>\<open>POST /generate\<close>; \<open>form\<close> is \<^verbatim>\<open>request.form\<close>. Both
      \<^verbatim>\<open>except\<close> clauses flash and redirect; the first one also catches the
      \<^verbatim>\<open>ValueError\<close> of the generator.\<close>
  "generate_posts e form s w =
     (let menu_text = strip (dict_get form ''menu_text'' [])
      in case requested_num_posts form of
           None \<Rightarrow>
             (RedirectIndex,
              flash ''Invalid number of posts. Please enter a valid number.'' ''error'' s, w)
         | Some num_posts \<Rightarrow>
             (let language = dict_get form ''language'' ''english''
              in if menu_text = []
                 then (RedirectIndex,
                       flash ''Please enter your restaurant menu text.'' ''error'' s, w)
                 else if num_posts < 1 \<or> num_posts > 10
                 then (RedirectIndex,
                       flash ''Number of posts must be between 1 and 10.'' ''error'' s, w)
                 else
                   (let ab_test_mode = (map_of form ''ab_test_mode'' = Some ''on'')
                    in case generate_multiple_social_media_posts e menu_text num_posts
                              language ab_test_mode w of
                         (Inl (ValueError _), w') \<Rightarrow>
                           (RedirectIndex,
                            flash ''Invalid number of posts. Please enter a valid number.''
                              ''error'' s, w')
                       | (Inl _, w') \<Rightarrow>
                           (RedirectIndex,
                            flash (''Sorry, we encountered an issue generating your posts. ''
                                   @ ''Please try again.'') ''error'' s, w')
                       | (Inr posts, w') \<Rightarrow>
                           if posts = []
                           then (RedirectIndex,
                                 flash ''Failed to generate posts. Please try again.'' ''error'' s,
                                 w')
                           else
                             (let merged = merge_uploaded
                                             (case uploaded_images s of Some u \<Rightarrow> u | None \<Rightarrow> [])
                                             posts;
                                  s' = s\<lparr>current_posts := Some merged,
                                         current_menu_text := Some menu_text,
                                         current_language := Some language\<rparr>
                              in if template_renders e
                                 then (RenderResults merged menu_text language ab_test_mode, s', w')
                                 else (RedirectIndex,
                                       flash (''Sorry, we encountered an issue generating your ''
                                              @ ''posts. Please try again.'') ''error'' s', w')))))"

definition ALLOWED_EXTENSIONS :: "string list" where
  "ALLOWED_EXTENSIONS = [''png'', ''jpg'', ''jpeg'', ''gif'', ''webp'']"

definition after_last_dot :: "string \<Rightarrow> string" where
  \<comment> \<open>\<^verbatim>\<open>filename.rsplit('.', 1)[1]\<close>, for a name with a dot\<close>
  "after_last_dot name = rev (takeWhile (\<lambda>c. c \<noteq> CHR ''.'') (rev name))"

definition allowed_file :: "string \<Rightarrow> bool" where
  "allowed_file name =
     (CHR ''.'' \<in> set name \<and> lower (after_last_dot name) \<in> set ALLOWED_EXTENSIONS)"

record upload =
  filename :: string
  content :: string

text \<open>
  The upload folder is modelled as the list of the files written to it, oldest first;
  \<^verbatim>\<open>file.save\<close> is taken to succeed.
\<close>

definition set_post_image :: "post list \<Rightarrow> nat \<Rightarrow> string \<Rightarrow> post list" where
  \<comment> \<open>the stored post at the index, when there is one, gets the new URL\<close>
  "set_post_image posts i url =
     (if i < length posts then posts[i := (posts ! i)\<lparr>image_url := Some url\<rparr>] else posts)"

definition upload_image ::
  "env \<Rightarrow> nat \<Rightarrow> (string \<times> upload) list \<Rightarrow> session \<Rightarrow> (string \<times> string) list \<Rightarrow> world
   \<Rightarrow> response \<times> session \<times> (string \<times> string) list \<times> world" where
  \<comment> \<open>the handler of \<^verbatim>\<open>POST /upload_image/<int:post_index>\<close>; \<open>files\<close> is
      \<^verbatim>\<open>request.files\<close>, \<open>folder\<close> the upload folder\<close>
  "upload_image e post_index files s folder w =
     (case map_of files ''image'' of
        None \<Rightarrow> (JsonResponse [(''error'', PStr ''No file selected'')] 400, s, folder, w)
      | Some file \<Rightarrow>
          if filename file = []
          then (JsonResponse [(''error'', PStr ''No file selected'')] 400, s, folder, w)
          else if allowed_file (filename file)
          then
            (let (u, w') = new_uuid e w;
                 name = u @ ''.'' @ lower (after_last_dot (filename file));
                 folder' = folder @ [(''/tmp/uploads/'' @ name, content file)];
                 images' = dict_set (case uploaded_images s of Some m \<Rightarrow> m | None \<Rightarrow> [])
                             (str_nat post_index) name;
                 posts' = (case current_posts s of
                             Some posts \<Rightarrow>
                               Some (set_post_image posts post_index (''/uploaded_image/'' @ name))
                           | None \<Rightarrow> None)
             in (JsonResponse [(''success'', PBool True), (''filename'', PStr name),
                               (''url'', PStr (''/uploaded_image/'' @ name))] 200,
                 s\<lparr>uploaded_images := Some images', current_posts := posts'\<rparr>, folder', w'))
          else (JsonResponse [(''error'', PStr ''Invalid file type'')] 400, s, folder, w))"

definition csv_headers :: "pyval list" where
  "csv_headers = [PStr ''Post_Index'', PStr ''Caption_EN'', PStr ''Caption_DE'',
                  PStr ''Hashtags'', PStr ''Image_URL'', PStr ''Image_Prompt'']"

definition csv_row :: "nat \<Rightarrow> post \<Rightarrow> pyval list" where
  \<comment> \<open>the row written for the post at index \<open>i\<close>\<close>
  "csv_row i p =
     [PInt (int i + 1),
      PStr (caption p),
      PStr (case caption_german p of Some g \<Rightarrow> g | None \<Rightarrow> []),
      PStr (join '', '' (hashtags p)),
      (case image_url p of Some u \<Rightarrow> PStr u | None \<Rightarrow> PNone),
      image_prompt p]"

definition export_posts ::
  "env \<Rightarrow> (string \<times> string) list \<Rightarrow> session \<Rightarrow> response \<times> session" where
  \<comment> \<open>the handler of \<^verbatim>\<open>GET /export_posts\<close>; \<open>args\<close> is \<^verbatim>\<open>request.args\<close>. The CSV
      file is given by the rows handed to \<^verbatim>\<open>csv.writer\<close>, the JSON file by the
      dictionary handed to \<^verbatim>\<open>json.dumps\<close>.\<close>
  "export_posts e args s =
     (let format_type = dict_get args ''format'' ''json'';
          posts = (case current_posts s of Some ps \<Rightarrow> ps | None \<Rightarrow> [])
      in if posts = []
         then (RedirectIndex,
               flash ''No posts to export. Please generate posts first.'' ''error'' s)
         else if format_type = ''csv''
         then (CsvFile (csv_headers # map (\<lambda>(i, p). csv_row i p) (enumerate 0 posts)), s)
         else (JsonFile
                 [(''menu_text'', EStr (case current_menu_text s of Some m \<Rightarrow> m | None \<Rightarrow> [])),
                  (''language'',
                   EStr (case current_language s of Some l \<Rightarrow> l | None \<Rightarrow> ''english'')),
                  (''generated_at'', EStr (now_isoformat e)),
                  (''posts'', EPosts posts)], s))"

section \<open>Example inputs\<close>

text \<open>
  Concrete environments and requests, on which the properties below are evaluated.
\<close>

definition start :: world where
  "start = \<lparr>completion_calls = 0, image_calls = 0, uuid_calls = 0\<rparr>"

definition example_env :: env where
  \<comment> \<open>the service answers with one post that has two hashtags; no image can be made\<close>
  "example_env =
     \<lparr>completion = ContentJson (PDict [(''posts'', PList [
          PDict [(''caption'', PStr ''Fresh pasta tonight''),
                 (''hashtags'', PList [PStr ''#Pasta'', PStr '' Italian ''])]])]),
      images = (\<lambda>n. ImageRaises),
      uuid4 = (\<lambda>n. replicate (Suc n) CHR ''u''),
      template_renders = True,
      now_isoformat = ''2024-05-01T12:00:00''\<rparr>"

definition example_post :: post where
  "example_post =
     \<lparr>caption = ''Fresh pasta tonight'', hashtags = [''Pasta'', ''Italian'', ''BerlinEats''],
      image_url = None, image_prompt = PStr [], variant = PStr [], post_id = ''u'',
      caption_german = None\<rparr>"

definition no_content_env :: env where
  \<comment> \<open>the first choice of the completion has no content\<close>
  "no_content_env = example_env\<lparr>completion := ContentNone\<rparr>"


definition example_session :: session where
  \<comment> \<open>the session after the posts of the example were generated\<close>
  "example_session =
     \<lparr>flashes = [], uploaded_images = None,
      current_posts = Some [example_post, fallback_post ''english'' None ''uu''],
      current_menu_text = Some ''menu'', current_language = None\<rparr>"

definition example_upload :: upload where
  "example_upload = \<lparr>filename = ''dish.final.PNG'', content = ''image bytes''\<rparr>"

definition four_tags_env :: env where
  \<comment> \<open>one post with four hashtags, none of them a Berlin tag\<close>
  "four_tags_env =
     example_env\<lparr>completion := ContentJson (PDict [(''posts'', PList [
          PDict [(''caption'', PStr ''Fresh pasta tonight''),
                 (''hashtags'', PList [PStr ''pasta'', PStr ''italian'', PStr ''dinner'',
                                       PStr ''foodie''])]])])\<rparr>"

definition spaced_tag_env :: env where
  \<comment> \<open>one post whose first hashtag has a space after the hash sign\<close>
  "spaced_tag_env =
     example_env\<lparr>completion := ContentJson (PDict [(''posts'', PList [
          PDict [(''caption'', PStr ''Fresh pasta tonight''),
                 (''hashtags'', PList [PStr ''# vegan'', PStr ''BerlinEats'',
                                       PStr ''pasta''])]])])\<rparr>"

section \<open>Notions used to state the properties\<close>

definition usable_response :: "completion_response \<Rightarrow> bool" where
  \<comment> \<open>the content parses to a JSON object whose \<^verbatim>\<open>posts\<close> entry is absent or can be
      iterated over\<close>
  "usable_response r =
     (case r of
        ContentJson (PDict result) \<Rightarrow>
          (case py_iter (dict_get result ''posts'' (PList [])) of
             Inr _ \<Rightarrow> True
           | Inl _ \<Rightarrow> False)
      | _ \<Rightarrow> False)"

definition posts_data :: "completion_response \<Rightarrow> pyval list" where
  \<comment> \<open>the items the cleaning loop runs over\<close>
  "posts_data r =
     (case r of
        ContentJson (PDict result) \<Rightarrow>
          (case py_iter (dict_get result ''posts'' (PList [])) of
             Inr items \<Rightarrow> items
           | Inl _ \<Rightarrow> [])
      | _ \<Rightarrow> [])"

definition usable_posts :: "env \<Rightarrow> string \<Rightarrow> world \<Rightarrow> post list" where
  \<comment> \<open>the posts the cleaning loop keeps\<close>
  "usable_posts e language w =
     fst (clean_posts e language (posts_data (completion e))
            (w\<lparr>completion_calls := completion_calls w + 1\<rparr>))"

definition is_fallback_post :: "string \<Rightarrow> post \<Rightarrow> bool" where
  \<comment> \<open>a post of the padding loop, with whatever image and identifier it has\<close>
  "is_fallback_post language q = (q = fallback_post language (image_url q) (post_id q))"


definition extension :: "string \<Rightarrow> string option" where
  \<comment> \<open>the part after the last dot, in lower case; a name with no dot has none\<close>
  "extension name =
     (if CHR ''.'' \<in> set name then Some (lower (after_last_dot name)) else None)"

definition upload_accepted :: "(string \<times> upload) list \<Rightarrow> bool" where
  \<comment> \<open>a file is present under \<^verbatim>\<open>image\<close>, with a name that is not empty and has one of
      the five extensions\<close>
  "upload_accepted files =
     (case map_of files ''image'' of
        None \<Rightarrow> False
      | Some file \<Rightarrow>
          filename file \<noteq> []
          \<and> extension (filename file)
              \<in> {Some ''png'', Some ''jpg'', Some ''jpeg'', Some ''gif'', Some ''webp''})"

definition clean_tag_shape :: "string \<Rightarrow> bool" where
  \<comment> \<open>not empty, no hash sign in front, no white space at the end\<close>
  "clean_tag_shape t = (t \<noteq> [] \<and> hd t \<noteq> CHR ''#'' \<and> \<not> is_space (last t))"

section \<open>Lemmas shared by the properties\<close>

definition is_fallback :: "string \<Rightarrow> post \<Rightarrow> bool" where
  "is_fallback language q = (\<exists>img pid. q = fallback_post language img pid)"

lemma pad_hashtags_length: "length hs \<le> 3 \<Longrightarrow> length (pad_hashtags hs) = 3"
  by (induction hs rule: pad_hashtags.induct) (subst pad_hashtags.simps, auto)

lemma clean_hashtags_length: "length (clean_hashtags d) = 3"
  by (auto simp: clean_hashtags_def pad_hashtags_length split: pyval.splits)

lemma make_post_hashtags: "hashtags (fst (make_post e l d w)) = clean_hashtags d"
  by (simp add: make_post_def Let_def split: prod.splits)

lemma clean_posts_hashtags:
  "p \<in> set (fst (clean_posts e l items w)) \<Longrightarrow> length (hashtags p) = 3"
proof (induction e l items w rule: clean_posts.induct)
  case (2 e language post_data rest w)
  then show ?case
    using make_post_hashtags[of e language post_data w] clean_hashtags_length[of post_data]
    by (auto simp: Let_def split: if_splits prod.splits)
qed auto

lemma pad_step_fallback: "is_fallback l (fst (pad_step e l w))"
  by (auto simp: pad_step_def is_fallback_def Let_def split: prod.splits)

lemma pad_posts_shape:
  "\<exists>extra. fst (pad_posts e l n posts w) = posts @ extra
     \<and> (\<forall>q\<in>set extra. is_fallback l q)
     \<and> int (length (posts @ extra)) = max (int (length posts)) n"
proof (induction e l n posts w rule: pad_posts.induct)
  case (1 e language needed posts w)
  show ?case
  proof (cases "int (length posts) < needed")
    case True
    from 1[OF True] obtain extra where
      ex: "fst (pad_posts e language needed (posts @ [fst (pad_step e language w)])
                 (snd (pad_step e language w)))
           = (posts @ [fst (pad_step e language w)]) @ extra"
      and fb: "\<forall>q\<in>set extra. is_fallback language q"
      and len: "int (length ((posts @ [fst (pad_step e language w)]) @ extra))
                = max (int (length (posts @ [fst (pad_step e language w)]))) needed"
      by blast
    have "fst (pad_posts e language needed posts w)
          = posts @ (fst (pad_step e language w) # extra)"
      using True ex by (subst pad_posts.simps) simp
    moreover have "\<forall>q\<in>set (fst (pad_step e language w) # extra). is_fallback language q"
      using fb pad_step_fallback by simp
    moreover have "int (length (posts @ (fst (pad_step e language w) # extra)))
                   = max (int (length posts)) needed"
      using len True by simp
    ultimately show ?thesis by blast
  next
    case False
    then have "fst (pad_posts e language needed posts w) = posts @ []"
      by (subst pad_posts.simps) simp
    then show ?thesis using False by fastforce
  qed
qed

lemma set_py_take: "set (py_take n xs) \<subseteq> set xs"
  by (auto simp: py_take_def dest: in_set_takeD)

lemma generate_InrD:
  assumes "generate_multiple_social_media_posts e menu_text num_posts language ab w
           = (Inr posts, w')"
  shows "\<exists>result items.
           completion e = ContentJson (PDict result)
           \<and> py_iter (dict_get result ''posts'' (PList [])) = Inr items
           \<and> posts = py_take (if ab then num_posts * 2 else num_posts)
                       (fst (pad_posts e language (if ab then num_posts * 2 else num_posts)
                              (fst (clean_posts e language items
                                      (w\<lparr>completion_calls := completion_calls w + 1\<rparr>)))
                              (snd (clean_posts e language items
                                      (w\<lparr>completion_calls := completion_calls w + 1\<rparr>)))))
           \<and> w' = snd (pad_posts e language (if ab then num_posts * 2 else num_posts)
                              (fst (clean_posts e language items
                                      (w\<lparr>completion_calls := completion_calls w + 1\<rparr>)))
                              (snd (clean_posts e language items
                                      (w\<lparr>completion_calls := completion_calls w + 1\<rparr>))))"
  using assms
  by (auto simp: generate_multiple_social_media_posts_def generate_body_def Let_def
           split: completion_response.splits pyval.splits sum.splits prod.splits error.splits)

lemma fallback_hashtags: "is_fallback l q \<Longrightarrow> length (hashtags q) = 3"
  by (auto simp: is_fallback_def fallback_post_def)

section \<open>Three hashtags in every post\<close>

text \<open>
  C1. Whatever the completion service and the image service answer, and whatever the
  arguments are, every post in a list returned by
  \<^verbatim>\<open>generate_multiple_social_media_posts\<close> has exactly three hashtags.
\<close>

theorem hashtags_exactly_three:
  assumes "generate_multiple_social_media_posts e menu_text num_posts language ab w
           = (Inr posts, w')"
    and "p \<in> set posts"
  shows "length (hashtags p) = 3"
proof -
  from generate_InrD[OF assms(1)] obtain items n w0 where
    posts: "posts = py_take n (fst (pad_posts e language n
                      (fst (clean_posts e language items w0))
                      (snd (clean_posts e language items w0))))"
    by blast
  obtain extra where
    sh: "fst (pad_posts e language n (fst (clean_posts e language items w0))
               (snd (clean_posts e language items w0)))
         = fst (clean_posts e language items w0) @ extra"
    and fb: "\<forall>q\<in>set extra. is_fallback language q"
    using pad_posts_shape by blast
  from assms(2) posts sh have "p \<in> set (fst (clean_posts e language items w0)) \<or> p \<in> set extra"
    using set_py_take by fastforce
  then show ?thesis
    using clean_posts_hashtags fb fallback_hashtags by blast
qed

theorem hashtags_exactly_three_witness:
  "generate_multiple_social_media_posts example_env ''menu'' 2 ''english'' False start
     = (Inr [example_post, fallback_post ''english'' None ''uu''],
        \<lparr>completion_calls = 1, image_calls = 1, uuid_calls = 2\<rparr>)
   \<and> example_post \<in> set [example_post, fallback_post ''english'' None ''uu'']
   \<and> length (hashtags example_post) = 3"
proof -
  have run: "generate_multiple_social_media_posts example_env ''menu'' 2 ''english'' False start
               = (Inr [example_post, fallback_post ''english'' None ''uu''],
                  \<lparr>completion_calls = 1, image_calls = 1, uuid_calls = 2\<rparr>)"
    by code_simp
  have mem: "example_post \<in> set [example_post, fallback_post ''english'' None ''uu'']"
    by simp
  from hashtags_exactly_three[OF run mem] run mem show ?thesis by simp
qed

section \<open>The number of posts returned\<close>

lemma generate_usable:
  assumes "completion e = ContentJson (PDict result)"
    and "py_iter (dict_get result ''posts'' (PList [])) = Inr items"
  shows "generate_multiple_social_media_posts e menu_text num_posts language ab w
         = (Inr (py_take (if ab then num_posts * 2 else num_posts)
                   (fst (pad_posts e language (if ab then num_posts * 2 else num_posts)
                          (fst (clean_posts e language items
                                  (w\<lparr>completion_calls := completion_calls w + 1\<rparr>)))
                          (snd (clean_posts e language items
                                  (w\<lparr>completion_calls := completion_calls w + 1\<rparr>)))))),
            snd (pad_posts e language (if ab then num_posts * 2 else num_posts)
                          (fst (clean_posts e language items
                                  (w\<lparr>completion_calls := completion_calls w + 1\<rparr>)))
                          (snd (clean_posts e language items
                                  (w\<lparr>completion_calls := completion_calls w + 1\<rparr>)))))"
  using assms
  by (simp add: generate_multiple_social_media_posts_def generate_body_def Let_def
           split: prod.splits)

lemma generate_unusable:
  assumes "\<not> usable_response (completion e)"
  shows "\<exists>msg. generate_multiple_social_media_posts e menu_text num_posts language ab w
           = (Inl (ValueError msg), w\<lparr>completion_calls := completion_calls w + 1\<rparr>)"
  using assms
  by (auto simp: generate_multiple_social_media_posts_def generate_body_def Let_def
        usable_response_def
      split: completion_response.splits pyval.splits sum.splits error.splits)

lemma is_fallback_post: "is_fallback l q \<Longrightarrow> is_fallback_post l q"
  by (auto simp: is_fallback_def is_fallback_post_def fallback_post_def)

text \<open>
  C3, as the program has it. Let \<^verbatim>\<open>num_posts\<close> be between 1 and 10. When the
  completion answers with a JSON object whose \<^verbatim>\<open>posts\<close> entry is absent or can be
  iterated over, \<^verbatim>\<open>generate_multiple_social_media_posts\<close> returns exactly
  \<^verbatim>\<open>num_posts\<close> posts, and twice as many in A/B test mode: the posts kept by the
  cleaning loop, cut when there are more and followed by fallback posts when there are
  fewer. On every other answer (the call fails, there is no content, the content is not
  JSON, it is no object, its \<^verbatim>\<open>posts\<close> entry cannot be iterated over) the function
  raises \<^verbatim>\<open>ValueError\<close> and returns no list.
\<close>

theorem post_count:
  assumes "1 \<le> num_posts" and "num_posts \<le> 10"
  shows "(usable_response (completion e) \<longrightarrow>
            (\<exists>posts w' extra.
               generate_multiple_social_media_posts e menu_text num_posts language ab w
                 = (Inr posts, w')
               \<and> int (length posts) = (if ab then 2 * num_posts else num_posts)
               \<and> posts = take (length posts) (usable_posts e language w) @ extra
               \<and> list_all (is_fallback_post language) extra))
       \<and> (\<not> usable_response (completion e) \<longrightarrow>
            (\<exists>msg w'. generate_multiple_social_media_posts e menu_text num_posts language ab w
                           = (Inl (ValueError msg), w')))"
proof (intro conjI impI)
  assume "usable_response (completion e)"
  then obtain result items where
    c: "completion e = ContentJson (PDict result)"
    and it: "py_iter (dict_get result ''posts'' (PList [])) = Inr items"
    by (auto simp: usable_response_def split: completion_response.splits pyval.splits sum.splits)
  define n where "n = (if ab then num_posts * 2 else num_posts)"
  define w0 where "w0 = w\<lparr>completion_calls := completion_calls w + 1\<rparr>"
  define cleaned where "cleaned = fst (clean_posts e language items w0)"
  define padded where
    "padded = fst (pad_posts e language n cleaned (snd (clean_posts e language items w0)))"
  have n0: "0 \<le> n" using assms by (simp add: n_def)
  have up: "usable_posts e language w = cleaned"
    using c it by (simp add: usable_posts_def posts_data_def cleaned_def w0_def)
  obtain extra where
    pd: "padded = cleaned @ extra" and
    fb: "\<forall>q\<in>set extra. is_fallback language q" and
    len: "int (length (cleaned @ extra)) = max (int (length cleaned)) n"
    unfolding padded_def using pad_posts_shape by blast
  have tk: "py_take n padded = take (nat n) padded"
    using n0 by (simp add: py_take_def)
  have ln: "length (py_take n padded) = nat n"
    using len pd tk by simp
  have sh: "py_take n padded = take (nat n) cleaned @ take (nat n - length cleaned) extra"
    using tk pd by simp
  have fb': "list_all (is_fallback_post language) (take (nat n - length cleaned) extra)"
    using fb is_fallback_post by (auto simp: list_all_iff dest: in_set_takeD)
  have run: "generate_multiple_social_media_posts e menu_text num_posts language ab w
               = (Inr (py_take n padded),
                  snd (pad_posts e language n cleaned (snd (clean_posts e language items w0))))"
    using generate_usable[OF c it] by (simp add: n_def w0_def cleaned_def padded_def)
  have "int (length (py_take n padded)) = (if ab then 2 * num_posts else num_posts)"
    using ln n0 by (simp add: n_def mult.commute)
  moreover have "py_take n padded
                 = take (length (py_take n padded)) (usable_posts e language w)
                   @ take (nat n - length cleaned) extra"
    unfolding ln up by (rule sh)
  ultimately show "\<exists>posts w' extra.
               generate_multiple_social_media_posts e menu_text num_posts language ab w
                 = (Inr posts, w')
               \<and> int (length posts) = (if ab then 2 * num_posts else num_posts)
               \<and> posts = take (length posts) (usable_posts e language w) @ extra
               \<and> list_all (is_fallback_post language) extra"
    using run fb' by blast
next
  assume "\<not> usable_response (completion e)"
  from generate_unusable[OF this]
  show "\<exists>msg w'. generate_multiple_social_media_posts e menu_text num_posts language ab w
                           = (Inl (ValueError msg), w')"
    by blast
qed

theorem post_count_witness:
  "(1::int) \<le> 2 \<and> (2::int) \<le> 10 \<and> usable_response (completion example_env)
   \<and> (\<exists>posts w' extra.
         generate_multiple_social_media_posts example_env ''menu'' 2 ''english'' True start
           = (Inr posts, w')
         \<and> int (length posts) = 4
         \<and> posts = take (length posts) (usable_posts example_env ''english'' start) @ extra
         \<and> list_all (is_fallback_post ''english'') extra)"
proof -
  have u: "usable_response (completion example_env)" by code_simp
  from post_count[of 2 example_env "''menu''" "''english''" True start] u
  show ?thesis by simp
qed

text \<open>
  The claim as first stated, for every answer of the service, fails: with no content in
  the answer the function raises and no list of one post comes back.
\<close>

theorem no_content_raises:
  "generate_multiple_social_media_posts no_content_env ''menu'' 1 ''english'' False start
     = (Inl (ValueError ''Failed to generate social media posts''),
        \<lparr>completion_calls = 1, image_calls = 0, uuid_calls = 0\<rparr>)"
  by code_simp

section \<open>Post identifiers\<close>

lemma py_take_is_take: "\<exists>k. py_take n xs = take k xs"
  by (auto simp: py_take_def)


lemma generate_food_image_uuid [simp]:
  "uuid_calls (snd (generate_food_image e w)) = uuid_calls w"
  by (simp add: generate_food_image_def Let_def split: image_response.splits list.splits)

lemma make_post_id:
  "post_id (fst (make_post e l d w)) = uuid4 e (uuid_calls w)
   \<and> uuid_calls (snd (make_post e l d w)) = Suc (uuid_calls w)"
proof -
  have "uuid_calls (snd (generate_food_image e w)) = uuid_calls w" by simp
  then show ?thesis
    by (cases "generate_food_image e w")
       (auto simp: make_post_def new_uuid_def Let_def split: prod.splits sum.splits)
qed

lemma pad_step_id:
  "post_id (fst (pad_step e l w)) = uuid4 e (uuid_calls w)
   \<and> uuid_calls (snd (pad_step e l w)) = Suc (uuid_calls w)"
proof -
  have "uuid_calls (snd (generate_food_image e w)) = uuid_calls w" by simp
  then show ?thesis
    by (cases "generate_food_image e w")
       (auto simp: pad_step_def new_uuid_def fallback_post_def Let_def split: prod.splits)
qed

lemma clean_posts_ids:
  "uuid_calls w \<le> uuid_calls (snd (clean_posts e l items w))
   \<and> map post_id (fst (clean_posts e l items w))
       = map (uuid4 e) [uuid_calls w ..< uuid_calls (snd (clean_posts e l items w))]"
proof (induction e l items w rule: clean_posts.induct)
  case (2 e language post_data rest w)
  show ?case
  proof (cases "dict_has post_data ''caption''")
    case True
    obtain p w1 where mp: "make_post e language post_data w = (p, w1)"
      by (cases "make_post e language post_data w")
    obtain ps w2 where cp: "clean_posts e language rest w1 = (ps, w2)"
      by (cases "clean_posts e language rest w1")
    from make_post_id[of e language post_data w] mp
    have pid: "post_id p = uuid4 e (uuid_calls w)" and w1: "uuid_calls w1 = Suc (uuid_calls w)"
      by simp_all
    from 2(1)[OF True mp[symmetric] refl] cp
    have le: "uuid_calls w1 \<le> uuid_calls w2"
      and ids: "map post_id ps = map (uuid4 e) [uuid_calls w1 ..< uuid_calls w2]"
      by simp_all
    have "[uuid_calls w ..< uuid_calls w2] = uuid_calls w # [uuid_calls w1 ..< uuid_calls w2]"
      using le w1 by (simp add: upt_conv_Cons)
    then show ?thesis
      using True mp cp pid ids le w1 by simp
  next
    case False
    with 2(2) show ?thesis by simp
  qed
qed simp_all

lemma pad_posts_ids:
  "uuid_calls w \<le> uuid_calls (snd (pad_posts e l n posts w))
   \<and> map post_id (fst (pad_posts e l n posts w))
       = map post_id posts
         @ map (uuid4 e) [uuid_calls w ..< uuid_calls (snd (pad_posts e l n posts w))]"
proof (induction e l n posts w rule: pad_posts.induct)
  case (1 e language needed posts w)
  show ?case
  proof (cases "int (length posts) < needed")
    case True
    define q where "q = fst (pad_step e language w)"
    define w1 where "w1 = snd (pad_step e language w)"
    have un: "pad_posts e language needed posts w = pad_posts e language needed (posts @ [q]) w1"
      using True by (subst pad_posts.simps) (simp add: q_def w1_def)
    from pad_step_id[of e language w]
    have pid: "post_id q = uuid4 e (uuid_calls w)" and w1: "uuid_calls w1 = Suc (uuid_calls w)"
      by (simp_all add: q_def w1_def)
    from 1[OF True]
    have le: "uuid_calls w1 \<le> uuid_calls (snd (pad_posts e language needed (posts @ [q]) w1))"
      and ids: "map post_id (fst (pad_posts e language needed (posts @ [q]) w1))
                = map post_id (posts @ [q])
                  @ map (uuid4 e)
                      [uuid_calls w1 ..< uuid_calls (snd (pad_posts e language needed (posts @ [q]) w1))]"
      by (simp_all add: q_def w1_def)
    have "[uuid_calls w ..< uuid_calls (snd (pad_posts e language needed (posts @ [q]) w1))]
          = uuid_calls w # [uuid_calls w1 ..< uuid_calls (snd (pad_posts e language needed (posts @ [q]) w1))]"
      using le w1 by (simp add: upt_conv_Cons)
    then show ?thesis
      using un pid ids le w1 by simp
  next
    case False
    then have "pad_posts e language needed posts w = (posts, w)"
      by (subst pad_posts.simps) simp
    then show ?thesis by simp
  qed
qed

text \<open>
  C8. Every post of a returned list carries in \<^verbatim>\<open>post_id\<close> an identifier that
  \<^verbatim>\<open>uuid.uuid4()\<close> generated during the call, one call per post. So the identifiers
  of a returned list are pairwise distinct as long as \<^verbatim>\<open>uuid4\<close> does not repeat itself
  (the assumption \<open>inj (uuid4 e)\<close>; that random identifiers do not collide is not
  something the program decides).
\<close>

theorem post_ids_distinct:
  assumes "inj (uuid4 e)"
    and "generate_multiple_social_media_posts e menu_text num_posts language ab w
         = (Inr posts, w')"
  shows "distinct (map post_id posts)
       \<and> (\<forall>p\<in>set posts. \<exists>k. uuid_calls w \<le> k \<and> k < uuid_calls w' \<and> post_id p = uuid4 e k)"
proof -
  from generate_InrD[OF assms(2)] obtain items n where
    posts: "posts = py_take n (fst (pad_posts e language n
                      (fst (clean_posts e language items (w\<lparr>completion_calls := completion_calls w + 1\<rparr>)))
                      (snd (clean_posts e language items (w\<lparr>completion_calls := completion_calls w + 1\<rparr>)))))"
    and w': "w' = snd (pad_posts e language n
                      (fst (clean_posts e language items (w\<lparr>completion_calls := completion_calls w + 1\<rparr>)))
                      (snd (clean_posts e language items (w\<lparr>completion_calls := completion_calls w + 1\<rparr>))))"
    by blast
  define w0 where "w0 = w\<lparr>completion_calls := completion_calls w + 1\<rparr>"
  define cleaned where "cleaned = fst (clean_posts e language items w0)"
  define w1 where "w1 = snd (clean_posts e language items w0)"
  define padded where "padded = fst (pad_posts e language n cleaned w1)"
  have a: "uuid_calls w0 = uuid_calls w" by (simp add: w0_def)
  from clean_posts_ids[of w0 e language items]
  have le1: "uuid_calls w \<le> uuid_calls w1"
    and ids1: "map post_id cleaned = map (uuid4 e) [uuid_calls w ..< uuid_calls w1]"
    by (simp_all add: a cleaned_def w1_def)
  from pad_posts_ids[of w1 e language n cleaned]
  have le2: "uuid_calls w1 \<le> uuid_calls w'"
    and ids2: "map post_id padded
               = map post_id cleaned @ map (uuid4 e) [uuid_calls w1 ..< uuid_calls w']"
    by (simp_all add: w' padded_def cleaned_def w1_def w0_def)
  have "[uuid_calls w ..< uuid_calls w1] @ [uuid_calls w1 ..< uuid_calls w']
        = [uuid_calls w ..< uuid_calls w']"
    using le1 le2 by (metis le_Suc_ex upt_add_eq_append)
  then have all: "map post_id padded = map (uuid4 e) [uuid_calls w ..< uuid_calls w']"
    using ids1 ids2 by (metis map_append)
  have d: "distinct (map post_id padded)"
    unfolding all using assms(1) by (simp add: distinct_map inj_on_def inj_def)
  have "posts = py_take n padded"
    using posts by (simp only: padded_def cleaned_def w1_def w0_def)
  then obtain k where pk: "posts = take k padded"
    using py_take_is_take by metis
  have "distinct (map post_id posts)"
    using d pk by (simp add: take_map[symmetric])
  moreover have "\<forall>p\<in>set posts. \<exists>k. uuid_calls w \<le> k \<and> k < uuid_calls w' \<and> post_id p = uuid4 e k"
  proof
    fix p assume "p \<in> set posts"
    then have "p \<in> set padded" using pk by (auto dest: in_set_takeD)
    then have "post_id p \<in> set (map post_id padded)" by simp
    then show "\<exists>k. uuid_calls w \<le> k \<and> k < uuid_calls w' \<and> post_id p = uuid4 e k"
      unfolding all by auto
  qed
  ultimately show ?thesis by blast
qed

theorem post_ids_distinct_witness:
  "inj (uuid4 example_env)
   \<and> generate_multiple_social_media_posts example_env ''menu'' 2 ''english'' False start
       = (Inr [example_post, fallback_post ''english'' None ''uu''],
          \<lparr>completion_calls = 1, image_calls = 1, uuid_calls = 2\<rparr>)
   \<and> distinct (map post_id [example_post, fallback_post ''english'' None ''uu''])"
proof -
  have i: "inj (uuid4 example_env)"
    by (auto simp: example_env_def inj_def dest: arg_cong[where f = length])
  have run: "generate_multiple_social_media_posts example_env ''menu'' 2 ''english'' False start
               = (Inr [example_post, fallback_post ''english'' None ''uu''],
                  \<lparr>completion_calls = 1, image_calls = 1, uuid_calls = 2\<rparr>)"
    by code_simp
  from post_ids_distinct[OF i run] i run show ?thesis by blast
qed

section \<open>Bad input to \<^verbatim>\<open>/generate\<close>\<close>

text \<open>
  C9. When the menu text of the form is empty after stripping, or the requested number
  of posts is an integer below 1 or above 10, \<^verbatim>\<open>generate_posts\<close> answers with a
  redirect after flashing one message of category \<^verbatim>\<open>error\<close>; the completion service is
  not called and the posts stored in the session stay as they were.
\<close>

theorem generate_posts_rejects_bad_input:
  assumes "strip (dict_get form ''menu_text'' []) = []
           \<or> (\<exists>n. requested_num_posts form = Some n \<and> (n < 1 \<or> 10 < n))"
  shows "\<exists>msg s' w'. generate_posts e form s w = (RedirectIndex, s', w')
           \<and> flashes s' = flashes s @ [(''error'', msg)]
           \<and> completion_calls w' = completion_calls w
           \<and> current_posts s' = current_posts s"
  using assms
  by (cases "requested_num_posts form") (auto simp: generate_posts_def flash_def Let_def)

theorem generate_posts_rejects_bad_input_witness:
  "(\<exists>n. requested_num_posts [(''menu_text'', ''Pizza''), (''num_posts'', '' 11 '')] = Some n
         \<and> (n < 1 \<or> 10 < n))
   \<and> (\<exists>msg s' w'.
         generate_posts example_env [(''menu_text'', ''Pizza''), (''num_posts'', '' 11 '')]
           example_session start = (RedirectIndex, s', w')
         \<and> flashes s' = flashes example_session @ [(''error'', msg)]
         \<and> completion_calls w' = completion_calls start
         \<and> current_posts s' = current_posts example_session)"
proof -
  have r: "requested_num_posts [(''menu_text'', ''Pizza''), (''num_posts'', '' 11 '')] = Some 11"
    by code_simp
  then have h: "strip (dict_get [(''menu_text'', ''Pizza''), (''num_posts'', '' 11 '')] ''menu_text'' []) = []
           \<or> (\<exists>n. requested_num_posts [(''menu_text'', ''Pizza''), (''num_posts'', '' 11 '')] = Some n
                  \<and> (n < 1 \<or> 10 < n))"
    by simp
  from generate_posts_rejects_bad_input[OF h, of example_env example_session start] r
  show ?thesis by simp
qed

section \<open>Uploading an image\<close>

lemma map_of_dict_set: "map_of (dict_set d k v) k = Some v"
  by (induction d k v rule: dict_set.induct) auto

lemma upload_accepted_allowed:
  "upload_accepted files \<longleftrightarrow>
     (\<exists>upl. map_of files ''image'' = Some upl \<and> filename upl \<noteq> []
             \<and> allowed_file (filename upl))"
  by (auto simp: upload_accepted_def extension_def allowed_file_def ALLOWED_EXTENSIONS_def
           split: option.splits if_splits)

lemma upload_image_rejected:
  assumes "\<not> upload_accepted files"
  shows "\<exists>msg. upload_image e post_index files s folder w
           = (JsonResponse [(''error'', PStr msg)] 400, s, folder, w)"
  using assms
  by (auto simp: upload_image_def upload_accepted_allowed split: option.splits)

text \<open>
  C10. \<^verbatim>\<open>upload_image\<close> writes a file to the upload folder and records its name in the
  session under the index of the post exactly when the request carries a file whose name
  is not empty and has one of the extensions png, jpg, jpeg, gif and webp (the part after
  the last dot, in lower case). In every other case it answers with a JSON error and
  status 400, and leaves the session and the folder as they were.
\<close>

theorem upload_image_saves_iff_accepted:
  assumes "upload_image e post_index files s folder w = (r, s', folder', w')"
  shows "(upload_accepted files \<longrightarrow>
            (\<exists>upl name images.
               map_of files ''image'' = Some upl
               \<and> folder' = folder @ [(''/tmp/uploads/'' @ name, content upl)]
               \<and> uploaded_images s' = Some images
               \<and> map_of images (str_nat post_index) = Some name
               \<and> r = JsonResponse [(''success'', PBool True), (''filename'', PStr name),
                                    (''url'', PStr (''/uploaded_image/'' @ name))] 200))
       \<and> (\<not> upload_accepted files \<longrightarrow>
            (\<exists>msg. r = JsonResponse [(''error'', PStr msg)] 400)
            \<and> s' = s \<and> folder' = folder)"
proof (cases "upload_accepted files")
  case True
  then obtain upl where f: "map_of files ''image'' = Some upl" "filename upl \<noteq> []"
    "allowed_file (filename upl)"
    using upload_accepted_allowed by blast
  with assms True show ?thesis
    by (auto simp: upload_image_def Let_def new_uuid_def map_of_dict_set split: prod.splits)
next
  case False
  from upload_image_rejected[OF False, of e post_index s folder w] assms False
  show ?thesis by auto
qed

theorem upload_image_saves_iff_accepted_witness:
  "upload_accepted [(''image'', example_upload)]
   \<and> upload_image example_env 1 [(''image'', example_upload)] example_session [] start
       = (JsonResponse [(''success'', PBool True), (''filename'', PStr ''u.png''),
                        (''url'', PStr ''/uploaded_image/u.png'')] 200,
          example_session\<lparr>uploaded_images := Some [(''1'', ''u.png'')],
            current_posts := Some [example_post,
              (fallback_post ''english'' None ''uu'')\<lparr>image_url := Some ''/uploaded_image/u.png''\<rparr>]\<rparr>,
          [(''/tmp/uploads/u.png'', ''image bytes'')],
          \<lparr>completion_calls = 0, image_calls = 0, uuid_calls = 1\<rparr>)
   \<and> (\<exists>upl name images.
         map_of [(''image'', example_upload)] ''image'' = Some upl
         \<and> [(''/tmp/uploads/u.png'', ''image bytes'')] = [] @ [(''/tmp/uploads/'' @ name, content upl)]
         \<and> Some [(''1'', ''u.png'')] = Some images
         \<and> map_of images (str_nat 1) = Some name)"
proof -
  have a: "upload_accepted [(''image'', example_upload)]" by code_simp
  have run: "upload_image example_env 1 [(''image'', example_upload)] example_session [] start
       = (JsonResponse [(''success'', PBool True), (''filename'', PStr ''u.png''),
                        (''url'', PStr ''/uploaded_image/u.png'')] 200,
          example_session\<lparr>uploaded_images := Some [(''1'', ''u.png'')],
            current_posts := Some [example_post,
              (fallback_post ''english'' None ''uu'')\<lparr>image_url := Some ''/uploaded_image/u.png''\<rparr>]\<rparr>,
          [(''/tmp/uploads/u.png'', ''image bytes'')],
          \<lparr>completion_calls = 0, image_calls = 0, uuid_calls = 1\<rparr>)"
    by code_simp
  from upload_image_saves_iff_accepted[OF run] a run show ?thesis by auto
qed

section \<open>The exports\<close>

lemma csv_rows_nth:
  "i < length posts \<Longrightarrow>
   map (\<lambda>(i, p). csv_row i p) (enumerate 0 posts) ! i = csv_row i (posts ! i)"
  by (simp add: nth_enumerate_eq)

text \<open>
  C4. With a list of posts in the session that is not empty, the CSV export is the header
  row followed by one row for each post, in the order of the list; the row of the post at
  index \<open>i\<close> starts with \<open>i + 1\<close> and holds the hashtags of the post joined by a comma
  and a space.
\<close>

theorem csv_export_rows:
  assumes "current_posts s = Some posts" and "posts \<noteq> []"
    and "dict_get args ''format'' ''json'' = ''csv''"
  shows "\<exists>rows. export_posts e args s
           = (CsvFile ([PStr ''Post_Index'', PStr ''Caption_EN'', PStr ''Caption_DE'',
                        PStr ''Hashtags'', PStr ''Image_URL'', PStr ''Image_Prompt''] # rows), s)
         \<and> length rows = length posts
         \<and> (\<forall>i<length posts.
               rows ! i = csv_row i (posts ! i)
               \<and> rows ! i ! 0 = PInt (int i + 1)
               \<and> rows ! i ! 3 = PStr (join '', '' (hashtags (posts ! i))))"
proof -
  define rows where "rows = map (\<lambda>(i, p). csv_row i p) (enumerate 0 posts)"
  have "export_posts e args s
        = (CsvFile ([PStr ''Post_Index'', PStr ''Caption_EN'', PStr ''Caption_DE'',
                     PStr ''Hashtags'', PStr ''Image_URL'', PStr ''Image_Prompt''] # rows), s)"
    using assms by (simp add: export_posts_def Let_def csv_headers_def rows_def)
  moreover have "length rows = length posts" by (simp add: rows_def)
  moreover have "\<forall>i<length posts.
               rows ! i = csv_row i (posts ! i)
               \<and> rows ! i ! 0 = PInt (int i + 1)
               \<and> rows ! i ! 3 = PStr (join '', '' (hashtags (posts ! i)))"
    using csv_rows_nth[of _ posts] by (simp add: rows_def csv_row_def)
  ultimately show ?thesis by blast
qed

theorem csv_export_rows_witness:
  "current_posts example_session = Some [example_post, fallback_post ''english'' None ''uu'']
   \<and> dict_get [(''format'', ''csv'')] ''format'' ''json'' = ''csv''
   \<and> (\<exists>rows. export_posts example_env [(''format'', ''csv'')] example_session
           = (CsvFile ([PStr ''Post_Index'', PStr ''Caption_EN'', PStr ''Caption_DE'',
                        PStr ''Hashtags'', PStr ''Image_URL'', PStr ''Image_Prompt''] # rows),
              example_session)
         \<and> length rows = 2
         \<and> rows ! 0 = [PInt 1, PStr ''Fresh pasta tonight'', PStr [],
                        PStr ''Pasta, Italian, BerlinEats'', PNone, PStr []]
         \<and> rows ! 1 ! 0 = PInt 2
         \<and> rows ! 1 ! 3 = PStr ''BerlinEats, foodie, Mitte'')"
proof -
  have a: "current_posts example_session = Some [example_post, fallback_post ''english'' None ''uu'']"
    by (simp add: example_session_def)
  have b: "[example_post, fallback_post ''english'' None ''uu''] \<noteq> []" by simp
  have c: "dict_get [(''format'', ''csv'')] ''format'' ''json'' = ''csv''"
    by (simp add: dict_get_def)
  have r0: "csv_row 0 example_post = [PInt 1, PStr ''Fresh pasta tonight'', PStr [],
                        PStr ''Pasta, Italian, BerlinEats'', PNone, PStr []]"
    by (simp add: csv_row_def example_post_def)
  have r1: "join '', '' (hashtags (fallback_post ''english'' None ''uu'')) = ''BerlinEats, foodie, Mitte''"
    by (simp add: fallback_post_def)
  from csv_export_rows[OF a b c, of example_env] obtain rows where
    "export_posts example_env [(''format'', ''csv'')] example_session
           = (CsvFile ([PStr ''Post_Index'', PStr ''Caption_EN'', PStr ''Caption_DE'',
                        PStr ''Hashtags'', PStr ''Image_URL'', PStr ''Image_Prompt''] # rows),
              example_session)"
    "length rows = 2"
    "rows ! 0 = csv_row 0 example_post"
    "rows ! 1 ! 0 = PInt 2"
    "rows ! 1 ! 3 = PStr (join '', '' (hashtags (fallback_post ''english'' None ''uu'')))"
    by force
  with a c r0 r1 show ?thesis by auto
qed

text \<open>
  C5. With a list of posts in the session that is not empty, the JSON export is an object
  with the four keys \<^verbatim>\<open>menu_text\<close>, \<^verbatim>\<open>language\<close>, \<^verbatim>\<open>generated_at\<close> and \<^verbatim>\<open>posts\<close>;
  \<^verbatim>\<open>posts\<close> is the list of the session, and \<^verbatim>\<open>language\<close> is \<^verbatim>\<open>english\<close> when the
  session has none.
\<close>

theorem json_export_keys:
  assumes "current_posts s = Some posts" and "posts \<noteq> []"
    and "dict_get args ''format'' ''json'' \<noteq> ''csv''"
  shows "\<exists>data. export_posts e args s = (JsonFile data, s)
         \<and> map fst data = [''menu_text'', ''language'', ''generated_at'', ''posts'']
         \<and> map_of data ''posts'' = Some (EPosts posts)
         \<and> map_of data ''language''
             = Some (EStr (case current_language s of Some l \<Rightarrow> l | None \<Rightarrow> ''english''))"
  using assms by (simp add: export_posts_def Let_def)

theorem json_export_keys_witness:
  "current_posts example_session = Some [example_post, fallback_post ''english'' None ''uu'']
   \<and> dict_get [] ''format'' ''json'' \<noteq> ''csv''
   \<and> current_language example_session = None
   \<and> (\<exists>data. export_posts example_env [] example_session = (JsonFile data, example_session)
         \<and> map fst data = [''menu_text'', ''language'', ''generated_at'', ''posts'']
         \<and> map_of data ''posts''
             = Some (EPosts [example_post, fallback_post ''english'' None ''uu''])
         \<and> map_of data ''language'' = Some (EStr ''english''))"
proof -
  have a: "current_posts example_session = Some [example_post, fallback_post ''english'' None ''uu'']"
    by (simp add: example_session_def)
  have b: "[example_post, fallback_post ''english'' None ''uu''] \<noteq> []" by simp
  have c: "dict_get [] ''format'' ''json'' \<noteq> ''csv''"
    by (simp add: dict_get_def)
  have d: "current_language example_session = None" by (simp add: example_session_def)
  from json_export_keys[OF a b c, of example_env] a c d show ?thesis by simp
qed

section \<open>Failures in the request handlers\<close>


















section \<open>The Berlin tag\<close>

text \<open>
  What the cleaning of the hashtags does achieve: when at most three tags are left after
  normalizing, one of the three hashtags of the post is a Berlin tag.
\<close>

lemma lower_BerlinEats: "lower ''BerlinEats'' = ''berlineats''"
  by code_simp

lemma has_berlin_tag_iff: "has_berlin_tag tags \<longleftrightarrow> (\<exists>t\<in>set tags. lower t \<in> set berlin_tags)"
  by (simp add: has_berlin_tag_def list_ex_iff)

lemma BerlinEats_is_berlin: "lower ''BerlinEats'' \<in> set berlin_tags"
  by (simp add: lower_BerlinEats berlin_tags_def)

lemma ensure_berlin_tag_has:
  "length tags \<le> 3 \<Longrightarrow> has_berlin_tag (take 3 (ensure_berlin_tag tags))"
proof (cases "has_berlin_tag tags")
  case True
  assume "length tags \<le> 3"
  with True show ?thesis by (simp add: ensure_berlin_tag_def)
next
  case False
  assume len: "length tags \<le> 3"
  show ?thesis
  proof (cases "3 \<le> length tags")
    case True
    with len have l3: "length tags = 3" by simp
    then have "''BerlinEats'' \<in> set (tags[length tags - 1 := ''BerlinEats''])"
      by (simp add: set_update_memI)
    with False True l3 show ?thesis
      using BerlinEats_is_berlin by (auto simp: ensure_berlin_tag_def has_berlin_tag_iff)
  next
    case False
    with \<open>\<not> has_berlin_tag tags\<close> len show ?thesis
      using BerlinEats_is_berlin by (auto simp: ensure_berlin_tag_def has_berlin_tag_iff)
  qed
qed

lemma pad_hashtags_prefix: "\<exists>more. pad_hashtags hs = hs @ more"
proof (induction hs rule: pad_hashtags.induct)
  case (1 hs)
  show ?case
  proof (cases "length hs < 3")
    case False
    then show ?thesis by (subst pad_hashtags.simps) simp
  next
    case True
    then show ?thesis
      using 1 by (subst pad_hashtags.simps) (auto split: if_splits)
  qed
qed

lemma berlin_tag_kept_up_to_three:
  assumes "length (normalize_tags tags) \<le> 3"
  shows "has_berlin_tag (pad_hashtags (take 3 (ensure_berlin_tag (normalize_tags tags))))"
proof -
  obtain more where
    "pad_hashtags (take 3 (ensure_berlin_tag (normalize_tags tags)))
     = take 3 (ensure_berlin_tag (normalize_tags tags)) @ more"
    using pad_hashtags_prefix by blast
  with ensure_berlin_tag_has[OF assms] show ?thesis
    by (auto simp: has_berlin_tag_iff)
qed

text \<open>
  C2 says that every returned post has a hashtag of the list of Berlin tags. The program
  means to ensure it, and misses the posts that come with more than three hashtags: the
  Berlin tag is put in the place of the last tag, and the cut to three tags then drops
  it. Here the service answers with the four tags pasta, italian, dinner and foodie, and
  the post that is returned has none of the Berlin tags.
\<close>

theorem berlin_tag_lost_after_truncation:
  "generate_multiple_social_media_posts four_tags_env ''menu'' 1 ''english'' False start
     = (Inr [\<lparr>caption = ''Fresh pasta tonight'', hashtags = [''pasta'', ''italian'', ''dinner''],
              image_url = None, image_prompt = PStr [], variant = PStr [], post_id = ''u'',
              caption_german = None\<rparr>],
        \<lparr>completion_calls = 1, image_calls = 0, uuid_calls = 1\<rparr>)
   \<and> \<not> has_berlin_tag [''pasta'', ''italian'', ''dinner'']"
  by code_simp

section \<open>The shape of a hashtag\<close>

text \<open>
  What normalizing does achieve: every hashtag of a returned post is not empty, does not
  begin with a hash sign and does not end with white space.
\<close>

lemma last_dropWhile: "dropWhile P xs \<noteq> [] \<Longrightarrow> last (dropWhile P xs) = last xs"
  by (induction xs) (auto split: if_splits)

lemma strip_last: "strip s \<noteq> [] \<Longrightarrow> \<not> is_space (last (strip s))"
proof -
  assume ne: "strip s \<noteq> []"
  define ys where "ys = dropWhile is_space (rev (dropWhile is_space s))"
  have s: "strip s = rev ys" by (simp add: strip_def ys_def)
  with ne have "ys \<noteq> []" by simp
  then have "\<not> is_space (hd ys)" unfolding ys_def by (rule hd_dropWhile)
  moreover have "last (rev ys) = hd ys" using \<open>ys \<noteq> []\<close> by (simp add: last_rev)
  ultimately show ?thesis using s by simp
qed

lemma clean_tag_shape_lstrip:
  assumes "lstrip_hash (strip s) \<noteq> []"
  shows "clean_tag_shape (lstrip_hash (strip s))"
proof -
  have "hd (lstrip_hash (strip s)) \<noteq> CHR ''#''"
    using assms hd_dropWhile[of "\<lambda>c. c = CHR ''#''" "strip s"] by (simp add: lstrip_hash_def)
  moreover have "last (lstrip_hash (strip s)) = last (strip s)"
    using assms by (simp add: lstrip_hash_def last_dropWhile)
  moreover have "strip s \<noteq> []" using assms by (auto simp: lstrip_hash_def)
  ultimately show ?thesis using assms strip_last by (simp add: clean_tag_shape_def)
qed

lemma normalize_tags_shape: "t \<in> set (normalize_tags tags) \<Longrightarrow> clean_tag_shape t"
  by (induction tags) (auto simp: Let_def clean_tag_shape_lstrip split: if_splits)

lemma fixed_tags_shape:
  "clean_tag_shape ''BerlinEats''" "clean_tag_shape ''foodie''" "clean_tag_shape ''delicious''"
  "clean_tag_shape ''restaurant''" "clean_tag_shape ''Mitte''"
  by (simp_all add: clean_tag_shape_def is_space_def code_point_def)

lemma ensure_berlin_tag_shape:
  assumes "\<forall>t\<in>set tags. clean_tag_shape t"
  shows "\<forall>t\<in>set (ensure_berlin_tag tags). clean_tag_shape t"
  using assms fixed_tags_shape(1) set_update_subset_insert[of tags "length tags - 1" "''BerlinEats''"]
  by (auto simp: ensure_berlin_tag_def)

lemma pad_hashtags_shape:
  "\<forall>t\<in>set hs. clean_tag_shape t \<Longrightarrow> \<forall>t\<in>set (pad_hashtags hs). clean_tag_shape t"
proof (induction hs rule: pad_hashtags.induct)
  case (1 hs)
  show ?case
  proof (cases "length hs < 3")
    case False
    then show ?thesis using 1(4) by (subst pad_hashtags.simps) simp
  next
    case True
    then show ?thesis
      using 1 fixed_tags_shape by (subst pad_hashtags.simps) (auto split: if_splits)
  qed
qed

lemma clean_hashtags_shape: "t \<in> set (clean_hashtags d) \<Longrightarrow> clean_tag_shape t"
proof -
  assume t: "t \<in> set (clean_hashtags d)"
  show ?thesis
  proof (cases "dict_get d ''hashtags'' (PList [])")
    case (PList tags)
    have "\<forall>t\<in>set (take 3 (ensure_berlin_tag (normalize_tags tags))). clean_tag_shape t"
      using ensure_berlin_tag_shape[of "normalize_tags tags"] normalize_tags_shape
      by (auto dest: in_set_takeD)
    from pad_hashtags_shape[OF this] t PList show ?thesis
      by (simp add: clean_hashtags_def)
  qed (use t fixed_tags_shape in \<open>auto simp: clean_hashtags_def\<close>)
qed

lemma clean_posts_from_data:
  "p \<in> set (fst (clean_posts e l items w)) \<Longrightarrow> \<exists>d. hashtags p = clean_hashtags d"
proof (induction e l items w rule: clean_posts.induct)
  case (2 e language post_data rest w)
  then show ?case
    using make_post_hashtags[of e language post_data w]
    by (auto simp: Let_def split: if_splits prod.splits)
qed auto

lemma hashtags_shape:
  assumes "generate_multiple_social_media_posts e menu_text num_posts language ab w
           = (Inr posts, w')"
    and "p \<in> set posts" and "t \<in> set (hashtags p)"
  shows "t \<noteq> [] \<and> hd t \<noteq> CHR ''#'' \<and> \<not> is_space (last t)"
proof -
  from generate_InrD[OF assms(1)] obtain items n w0 where
    posts: "posts = py_take n (fst (pad_posts e language n
                      (fst (clean_posts e language items w0))
                      (snd (clean_posts e language items w0))))"
    by blast
  obtain extra where
    sh: "fst (pad_posts e language n (fst (clean_posts e language items w0))
               (snd (clean_posts e language items w0)))
         = fst (clean_posts e language items w0) @ extra"
    and fb: "\<forall>q\<in>set extra. is_fallback language q"
    using pad_posts_shape by blast
  from assms(2) posts sh have "p \<in> set (fst (clean_posts e language items w0)) \<or> p \<in> set extra"
    using set_py_take by fastforce
  then have "clean_tag_shape t"
  proof
    assume "p \<in> set (fst (clean_posts e language items w0))"
    then obtain d where "hashtags p = clean_hashtags d"
      using clean_posts_from_data by blast
    with assms(3) show ?thesis using clean_hashtags_shape by simp
  next
    assume "p \<in> set extra"
    with fb have "is_fallback language p" by blast
    with assms(3) show ?thesis
      using fixed_tags_shape by (auto simp: is_fallback_def fallback_post_def)
  qed
  then show ?thesis by (simp add: clean_tag_shape_def)
qed

text \<open>
  C7 says that, besides, no hashtag begins with white space. The program strips the white
  space before it removes the hash signs, so the white space between a hash sign and the
  word stays: the tag \<^verbatim>\<open># vegan\<close> of the service comes back as \<^verbatim>\<open> vegan\<close>, with the
  space in front.
\<close>

theorem hashtag_keeps_space_after_hash:
  "generate_multiple_social_media_posts spaced_tag_env ''menu'' 1 ''english'' False start
     = (Inr [\<lparr>caption = ''Fresh pasta tonight'', hashtags = ['' vegan'', ''BerlinEats'', ''pasta''],
              image_url = None, image_prompt = PStr [], variant = PStr [], post_id = ''u'',
              caption_german = None\<rparr>],
        \<lparr>completion_calls = 1, image_calls = 0, uuid_calls = 1\<rparr>)
   \<and> is_space (hd '' vegan'')"
  by code_simp

end
